theory Spec2Isabelle
  imports Complex_Main
begin

section \<open>The data model of scrape-fsworld.py\<close>

text \<open>
  The two enumerations share member names in the source (\<open>CarKind.ELECTRIC\<close>,
  \<open>EventKind.ELECTRIC\<close>); the constructors carry the enumeration as a prefix.
\<close>

datatype CarKind = Car_ELECTRIC | Car_COMBUSTION | Car_OTHER

datatype EventKind = Event_ELECTRIC | Event_COMBUSTION | Event_MIXED

text \<open>The \<open>.name\<close> of an enumeration member, as the CSV writers use it.\<close>

fun CarKind_name :: "CarKind \<Rightarrow> string" where
  "CarKind_name Car_ELECTRIC = ''ELECTRIC''"
| "CarKind_name Car_COMBUSTION = ''COMBUSTION''"
| "CarKind_name Car_OTHER = ''OTHER''"

fun EventKind_name :: "EventKind \<Rightarrow> string" where
  "EventKind_name Event_ELECTRIC = ''ELECTRIC''"
| "EventKind_name Event_COMBUSTION = ''COMBUSTION''"
| "EventKind_name Event_MIXED = ''MIXED''"

text \<open>\<open>str\<close> of an \<open>EventKind\<close> member, as the f-string of line 123 formats it.\<close>

definition EventKind_str :: "EventKind \<Rightarrow> string" where
  "EventKind_str k = ''EventKind.'' @ EventKind_name k"

text \<open>
  Python floats are idealised as reals. Fields whose names occur in several dataclasses
  of the source (\<open>place\<close>, \<open>name\<close>, \<open>kind\<close>, \<open>id\<close>) carry the class as a prefix
  outside \<open>PlacementData\<close>.
\<close>

record PlacementData =
  place :: int
  score :: real

type_synonym DisciplineData = "PlacementData option"

record TeamData =
  team_name :: string
  team_country :: string
  team_kind :: CarKind
  team_place :: int
  cost :: DisciplineData
  bp :: DisciplineData
  ed :: DisciplineData
  acc :: DisciplineData
  sp :: DisciplineData
  autox :: DisciplineData
  endu :: DisciplineData
  eff :: DisciplineData
  pen :: real
  total :: real

record EventData =
  ev_id :: int
  ev_kind :: EventKind
  ev_name :: string
  ev_results :: "TeamData list"

text \<open>The exceptions that end the script.\<close>

datatype error =
  AssertionError | ValueError | KeyError | TypeError | AttributeError | NameError
  | ConnectionError

section \<open>The document tree handed over by the HTML parser\<close>

text \<open>
  A parsed page is a tree of tags and strings. The attributes of a tag are a dict, here
  the list of its items; a value is a string, or a list of strings for the multi-valued
  attributes (\<open>class\<close>). Strings are byte strings. \<open>NavigableString\<close> stands for the
  strings that count as text (plain strings and CDATA sections), \<open>Comment\<close> for the
  string nodes that \<open>.text\<close> leaves out (comments, declarations, processing
  instructions): they are strings all the same, and siblings like any other node. The
  content of \<open>script\<close>, \<open>style\<close> and \<open>template\<close> tags is outside the model.
\<close>

datatype attr_value = AttrStr string | AttrList "string list"

datatype node =
  NavigableString string
  | Comment string
  | Tag string "(string \<times> attr_value) list" "node list"

text \<open>
  An element as the script holds it: the node together with the siblings that follow it
  under its parent (what \<open>next_sibling\<close> and \<open>find_next_sibling\<close> walk).
\<close>

type_synonym element = "node \<times> node list"

fun contents :: "node \<Rightarrow> node list" where
  "contents (NavigableString s) = []"
| "contents (Comment s) = []"
| "contents (Tag n a cs) = cs"

fun is_tag :: "node \<Rightarrow> bool" where
  "is_tag (NavigableString s) = False"
| "is_tag (Comment s) = False"
| "is_tag (Tag n a cs) = True"

fun tag_named :: "string \<Rightarrow> node \<Rightarrow> bool" where
  "tag_named nm (NavigableString s) = False"
| "tag_named nm (Comment s) = False"
| "tag_named nm (Tag n a cs) = (n = nm)"

text \<open>\<open>tag[key]\<close>: \<open>None\<close> stands for the KeyError.\<close>

fun get_attr :: "node \<Rightarrow> string \<Rightarrow> attr_value option" where
  "get_attr (NavigableString s) key = None"
| "get_attr (Comment s) key = None"
| "get_attr (Tag n a cs) key = map_of a key"

definition has_attr :: "node \<Rightarrow> string \<Rightarrow> bool" where
  "has_attr t key = (get_attr t key \<noteq> None)"

text \<open>
  \<open>.text\<close>: the text strings below the node, concatenated in document order; comments
  add nothing.
\<close>

fun text_of :: "node \<Rightarrow> string" where
  "text_of (NavigableString s) = s"
| "text_of (Comment s) = []"
| "text_of (Tag n a cs) = concat (map text_of cs)"

text \<open>All nodes below a list of siblings, in document order, each with its following siblings.\<close>

function descendants :: "node list \<Rightarrow> element list" where
  "descendants [] = []"
| "descendants (NavigableString s # rest) = (NavigableString s, rest) # descendants rest"
| "descendants (Comment s # rest) = (Comment s, rest) # descendants rest"
| "descendants (Tag n a cs # rest) = (Tag n a cs, rest) # descendants cs @ descendants rest"
  by pat_completeness auto
termination
  by (relation "measure (size_list size)") auto

text \<open>\<open>tag.find_all(...)\<close> and \<open>tag.find(...)\<close>: only tags are offered to the matcher.\<close>

definition find_all :: "(node \<Rightarrow> bool) \<Rightarrow> node \<Rightarrow> element list" where
  "find_all P t = filter (\<lambda>(d, sibs). is_tag d \<and> P d) (descendants (contents t))"

definition find_first :: "(node \<Rightarrow> bool) \<Rightarrow> node \<Rightarrow> element option" where
  "find_first P t = (case find_all P t of [] \<Rightarrow> None | e # es \<Rightarrow> Some e)"

text \<open>\<open>str.rstrip(chars)\<close>: drops every trailing character that occurs in \<open>chars\<close>.\<close>

definition rstrip :: "string \<Rightarrow> string \<Rightarrow> string" where
  "rstrip chars s = rev (dropWhile (\<lambda>c. c \<in> set chars) (rev s))"

section \<open>What lies outside the script\<close>

text \<open>
  The built-ins \<open>int()\<close> and \<open>float()\<close> on strings (\<open>None\<close> is their ValueError), the
  pages the site serves (\<open>None\<close> is a transport failure) and the time a request takes.
  They are parameters of everything below.
\<close>

record env =
  py_int :: "string \<Rightarrow> int option"
  py_float :: "string \<Rightarrow> real option"
  web :: "string \<Rightarrow> node option"
  latency :: "string \<Rightarrow> real"

section \<open>extract_discipline_data (lines 73-87)\<close>

definition extract_discipline_data :: "env \<Rightarrow> node \<Rightarrow> error + DisciplineData" where
  "extract_discipline_data E col =
     (let text = rstrip ''.'' (text_of col) in
      if text = ''-'' then Inr None
      else case py_int E (rstrip ''.'' (text_of col)) of
        None \<Rightarrow> Inl ValueError
      | Some place' \<Rightarrow>
          (case find_first (\<lambda>tag. has_attr tag ''title'') col of
            None \<Rightarrow> Inl AssertionError
          | Some (tooltip, sibs) \<Rightarrow>
              (case get_attr tooltip ''title'' of
                None \<Rightarrow> Inl KeyError
              | Some (AttrList vs) \<Rightarrow> Inl AssertionError
              | Some (AttrStr title) \<Rightarrow>
                  (case py_float E title of
                    None \<Rightarrow> Inl ValueError
                  | Some score' \<Rightarrow> Inr (Some \<lparr>place = place', score = score'\<rparr>)))))"

section \<open>Decoding one table row (lines 132-178)\<close>

text \<open>Sequencing of steps that may raise: the first exception ends the computation.\<close>

definition bind_err :: "error + 'a \<Rightarrow> ('a \<Rightarrow> error + 'b) \<Rightarrow> error + 'b" where
  "bind_err r f = (case r of Inl e \<Rightarrow> Inl e | Inr x \<Rightarrow> f x)"

text \<open>
  \<open>str.split(sep, maxsplit)\<close> for a non-empty separator: cut at the leftmost occurrence,
  at most \<open>maxsplit\<close> times.
\<close>

fun partition_first :: "string \<Rightarrow> string \<Rightarrow> (string \<times> string) option" where
  "partition_first sep [] = None"
| "partition_first sep (c # cs) =
     (if take (length sep) (c # cs) = sep then Some ([], drop (length sep) (c # cs))
      else map_option (\<lambda>(a, b). (c # a, b)) (partition_first sep cs))"

fun split_n :: "string \<Rightarrow> nat \<Rightarrow> string \<Rightarrow> string list" where
  "split_n sep 0 s = [s]"
| "split_n sep (Suc n) s =
     (case partition_first sep s of None \<Rightarrow> [s] | Some (a, b) \<Rightarrow> a # split_n sep n b)"

text \<open>
  Line 139, \<open>country, name = cols[0]["title"].split(" | ", 1)\<close>: a missing attribute is a
  KeyError, a list has no \<open>split\<close>, and unpacking anything but two parts is a ValueError.
\<close>

definition country_name :: "node \<Rightarrow> error + (string \<times> string)" where
  "country_name col =
     (case get_attr col ''title'' of
        None \<Rightarrow> Inl KeyError
      | Some (AttrList vs) \<Rightarrow> Inl AttributeError
      | Some (AttrStr title) \<Rightarrow>
          (case split_n '' | '' 1 title of
             [country, name] \<Rightarrow> Inr (country, name)
           | _ \<Rightarrow> Inl ValueError))"

text \<open>Lines 151-159: the car kind from the title attribute of the total-score cell.\<close>

definition car_kind :: "attr_value \<Rightarrow> error + CarKind" where
  "car_kind kind =
     (if kind = AttrStr ''electric'' then Inr Car_ELECTRIC
      else if kind = AttrStr ''combustion'' then Inr Car_COMBUSTION
      else if kind = AttrStr ''other'' then Inr Car_OTHER
      else Inl ValueError)"

text \<open>\<open>int(s)\<close> and \<open>float(s)\<close> as steps that may raise.\<close>

definition int_of :: "env \<Rightarrow> string \<Rightarrow> error + int" where
  "int_of E s = (case py_int E s of None \<Rightarrow> Inl ValueError | Some i \<Rightarrow> Inr i)"

definition float_of :: "env \<Rightarrow> string \<Rightarrow> error + real" where
  "float_of E s = (case py_float E s of None \<Rightarrow> Inl ValueError | Some x \<Rightarrow> Inr x)"

definition item :: "node \<Rightarrow> string \<Rightarrow> error + attr_value" where
  "item t key = (case get_attr t key of None \<Rightarrow> Inl KeyError | Some v \<Rightarrow> Inr v)"

text \<open>
  The body of the row loop: \<open>Inr None\<close> is the \<open>continue\<close> of a header row, \<open>Inr (Some t)\<close>
  the team appended to \<open>results\<close>.
\<close>

definition extract_row :: "env \<Rightarrow> node \<Rightarrow> error + TeamData option" where
  "extract_row E row =
     (if find_first (tag_named ''th'') row \<noteq> None then Inr None
      else
        let cols = map fst (find_all (tag_named ''td'') row) in
        if length cols \<noteq> 12 then Inl AssertionError
        else
          bind_err (country_name (cols ! 0)) (\<lambda>(country', name').
          bind_err (int_of E (rstrip ''.'' (text_of (cols ! 1)))) (\<lambda>place'.
          bind_err (extract_discipline_data E (cols ! 2)) (\<lambda>cost'.
          bind_err (extract_discipline_data E (cols ! 3)) (\<lambda>bp'.
          bind_err (extract_discipline_data E (cols ! 4)) (\<lambda>ed'.
          bind_err (extract_discipline_data E (cols ! 5)) (\<lambda>acc'.
          bind_err (extract_discipline_data E (cols ! 6)) (\<lambda>sp'.
          bind_err (extract_discipline_data E (cols ! 7)) (\<lambda>autox'.
          bind_err (extract_discipline_data E (cols ! 8)) (\<lambda>endu'.
          bind_err (extract_discipline_data E (cols ! 9)) (\<lambda>eff'.
          bind_err (float_of E (text_of (cols ! 10))) (\<lambda>pen'.
          bind_err (float_of E (text_of (cols ! 11))) (\<lambda>total'.
          bind_err (item (cols ! 11) ''title'') (\<lambda>kind.
          bind_err (car_kind kind) (\<lambda>kind'.
          Inr (Some \<lparr>team_name = name', team_country = country', team_kind = kind',
                     team_place = place', cost = cost', bp = bp', ed = ed', acc = acc',
                     sp = sp', autox = autox', endu = endu', eff = eff', pen = pen',
                     total = total'\<rparr>))))))))))))))))"

text \<open>The row loop, with \<open>results\<close> as its accumulator.\<close>

fun extract_rows :: "env \<Rightarrow> node list \<Rightarrow> TeamData list \<Rightarrow> error + TeamData list" where
  "extract_rows E [] results = Inr results"
| "extract_rows E (row # rows) results =
     (case extract_row E row of
        Inl e \<Rightarrow> Inl e
      | Inr None \<Rightarrow> extract_rows E rows results
      | Inr (Some team) \<Rightarrow> extract_rows E rows (results @ [team]))"

section \<open>Heading, event kind and results table of a detail page (lines 109-129)\<close>

text \<open>\<open>str.lower()\<close> on byte strings: the letters A to Z change, nothing else does.\<close>

definition lower_char :: "char \<Rightarrow> char" where
  "lower_char c =
     (case map_of (zip ''ABCDEFGHIJKLMNOPQRSTUVWXYZ'' ''abcdefghijklmnopqrstuvwxyz'') c of
        Some l \<Rightarrow> l
      | None \<Rightarrow> c)"

definition lower :: "string \<Rightarrow> string" where
  "lower s = map lower_char s"

text \<open>\<open>sub in s\<close> on strings.\<close>

fun py_in :: "string \<Rightarrow> string \<Rightarrow> bool" where
  "py_in sub [] = (sub = [])"
| "py_in sub (c # cs) = (take (length sub) (c # cs) = sub \<or> py_in sub cs)"

text \<open>
  \<open>event_info.lower()\<close>: on a string, a comment included, the lower-cased string. On a
  tag, \<open>.lower\<close> is the
  tag's first descendant named \<open>lower\<close>: calling \<open>None\<close> is a TypeError, calling a tag gives
  a list of tags, in which no string is found (\<open>Inr None\<close>).
\<close>

fun lower_info :: "node \<Rightarrow> error + string option" where
  "lower_info (NavigableString s) = Inr (Some (lower s))"
| "lower_info (Comment s) = Inr (Some (lower s))"
| "lower_info (Tag n a cs) =
     (if find_first (tag_named ''lower'') (Tag n a cs) = None then Inl TypeError else Inr None)"

text \<open>
  Lines 117-122. The result is the value of the variable \<open>event_kind\<close> afterwards: with
  no matching branch it keeps what it held (\<open>None\<close>: not yet bound).
\<close>

definition classify :: "string option \<Rightarrow> EventKind option \<Rightarrow> EventKind option" where
  "classify event_info previous =
     (case event_info of
        None \<Rightarrow> previous
      | Some info \<Rightarrow>
          if py_in ''mixed event'' info then Some Event_MIXED
          else if py_in ''pure electric'' info then Some Event_ELECTRIC
          else if py_in ''pure combustion'' info then Some Event_COMBUSTION
          else previous)"

text \<open>Lines 109-116: the one \<open>h4\<close>, its text and the lower-cased node after it.\<close>

definition page_heading :: "node \<Rightarrow> error + (string \<times> string option)" where
  "page_heading soup =
     (case find_all (tag_named ''h4'') soup of
        [(h4, sibs)] \<Rightarrow>
          (case sibs of
             [] \<Rightarrow> Inl AssertionError
           | event_info # rest \<Rightarrow>
               bind_err (lower_info event_info) (\<lambda>info. Inr (text_of h4, info)))
      | _ \<Rightarrow> Inl AssertionError)"

text \<open>How a keyword argument of \<open>find\<close> matches an attribute value.\<close>

fun join_sp :: "string list \<Rightarrow> string" where
  "join_sp [] = []"
| "join_sp [x] = x"
| "join_sp (x # y # ys) = x @ '' '' @ join_sp (y # ys)"

fun attr_matches :: "attr_value option \<Rightarrow> string \<Rightarrow> bool" where
  "attr_matches None v = False"
| "attr_matches (Some (AttrStr s)) v = (s = v)"
| "attr_matches (Some (AttrList vs)) v = (v \<in> set vs \<or> join_sp vs = v)"

text \<open>Lines 125-129: the rows of the first \<open>wrl_table\<close> table after the results anchor.\<close>

definition results_rows :: "node \<Rightarrow> error + node list" where
  "results_rows soup =
     (case find_first (\<lambda>t. attr_matches (get_attr t ''id'') ''results'') soup of
        None \<Rightarrow> Inl AssertionError
      | Some (results_header, sibs) \<Rightarrow>
          (case filter (\<lambda>n. tag_named ''table'' n
                            \<and> attr_matches (get_attr n ''class'') ''wrl_table'') sibs of
             [] \<Rightarrow> Inl AssertionError
           | table # rest \<Rightarrow> Inr (map fst (find_all (tag_named ''tr'') table))))"

section \<open>The state of a run\<close>

text \<open>
  A Python dict keeps its keys in insertion order: an association list with distinct
  keys. Assigning to a key that is present replaces its value in place.
\<close>

definition dict_contains :: "'k \<Rightarrow> ('k \<times> 'v) list \<Rightarrow> bool" where
  "dict_contains k d = (k \<in> set (map fst d))"

fun dict_set :: "'k \<Rightarrow> 'v \<Rightarrow> ('k \<times> 'v) list \<Rightarrow> ('k \<times> 'v) list" where
  "dict_set k v [] = [(k, v)]"
| "dict_set k v ((k', v') # d) = (if k' = k then (k, v) # d else (k', v') # dict_set k v d)"

definition dict_values :: "('k \<times> 'v) list \<Rightarrow> 'v list" where
  "dict_values d = map snd d"

text \<open>
  What \<open>csv.DictWriter\<close> is given: the field names and, for each \<open>writerow\<close>, the values
  of the row in the order of the field names. A file holds the header and the rows.
\<close>

datatype cell = CellStr string | CellInt int | CellFloat real | CellNone

type_synonym csv_file = "string list \<times> cell list list"

definition writerow :: "string list \<Rightarrow> (string \<times> cell) list \<Rightarrow> cell list" where
  "writerow fieldnames row =
     map (\<lambda>f. case map_of row f of Some c \<Rightarrow> c | None \<Rightarrow> CellStr []) fieldnames"

record Scraper =
  min_pause :: real
  last_request :: real

text \<open>\<open>Scraper()\<close>: \<open>min_pause\<close> defaults to 1.\<close>

definition Scraper_init :: "real \<Rightarrow> Scraper" where
  "Scraper_init pause = \<lparr>min_pause = pause, last_request = 0\<rparr>"

definition Scraper_default :: Scraper where
  "Scraper_default = Scraper_init 1"

text \<open>
  The module-level variables (\<open>event_kind\<close> is unbound until its first assignment), the
  clock that \<open>time.time()\<close> reads, the requests sent so far (URL, time sent, time
  answered), the files on disk and the lines printed.
\<close>

record state =
  events :: "(int \<times> EventData) list"
  event_kind :: "EventKind option"
  scraper :: Scraper
  clock :: real
  requests :: "(string \<times> real \<times> real) list"
  files :: "string \<Rightarrow> csv_file option"
  stdout :: "string list"

section \<open>Scraper.get (lines 64-70)\<close>

text \<open>\<open>time.sleep(d)\<close> lets \<open>d\<close> seconds pass.\<close>

definition sleep :: "real \<Rightarrow> state \<Rightarrow> state" where
  "sleep d s = s\<lparr>clock := clock s + d\<rparr>"

text \<open>
  \<open>requests.get(url)\<close>: sent at the current time, answered \<open>latency\<close> later; a transport
  failure raises.
\<close>

definition requests_get :: "env \<Rightarrow> string \<Rightarrow> state \<Rightarrow> (error + node) \<times> state" where
  "requests_get E url s =
     (let sent = clock s;
          answered = sent + latency E url;
          s' = s\<lparr>clock := answered, requests := requests s @ [(url, sent, answered)]\<rparr>
      in (case web E url of None \<Rightarrow> (Inl ConnectionError, s') | Some doc \<Rightarrow> (Inr doc, s')))"

definition get :: "env \<Rightarrow> string \<Rightarrow> state \<Rightarrow> (error + node) \<times> state" where
  "get E url s =
     (let now = clock s;
          diff = now - last_request (scraper s);
          s1 = (if diff < min_pause (scraper s) then sleep (min_pause (scraper s) - diff) s
                else s);
          s2 = s1\<lparr>scraper := (scraper s1)\<lparr>last_request := clock s1\<rparr>\<rparr>
      in requests_get E url s2)"

section \<open>The main loop (lines 94-253)\<close>

text \<open>Decimal \<open>str\<close> of an integer, for the f-strings.\<close>

definition digit_char :: "nat \<Rightarrow> char" where
  "digit_char d = ''0123456789'' ! d"

function str_nat :: "nat \<Rightarrow> string" where
  "str_nat n =
     (if n < 10 then [digit_char n] else str_nat (n div 10) @ [digit_char (n mod 10)])"
  by pat_completeness auto
termination
  by (relation "measure id") auto

declare str_nat.simps [simp del]

definition str_int :: "int \<Rightarrow> string" where
  "str_int i = (if i < 0 then ''-'' @ str_nat (nat (- i)) else str_nat (nat i))"

definition DATASETS :: "(string \<times> string) list" where
  "DATASETS = [(''FSE'', ''https://fs-world.org/E''), (''FSC'', ''https://fs-world.org/C'')]"

definition event_path :: "int \<Rightarrow> string" where
  "event_path event_id = ''data/events/'' @ str_int event_id @ ''.csv''"

definition series_path :: "string \<Rightarrow> string" where
  "series_path wrl_kind = ''data/'' @ wrl_kind @ ''.csv''"

definition event_fieldnames :: "string list" where
  "event_fieldnames =
     [''name'', ''country'', ''kind'', ''place'', ''cost_place'', ''cost_score'',
      ''bp_place'', ''bp_score'', ''ed_place'', ''ed_score'', ''acc_place'', ''acc_score'',
      ''sp_place'', ''sp_score'', ''autox_place'', ''autox_score'', ''endu_place'',
      ''endu_score'', ''eff_place'', ''eff_score'', ''pen'', ''total'']"

definition place_cell :: "DisciplineData \<Rightarrow> cell" where
  "place_cell d = (case d of Some p \<Rightarrow> CellInt (place p) | None \<Rightarrow> CellNone)"

definition score_cell :: "DisciplineData \<Rightarrow> cell" where
  "score_cell d = (case d of Some p \<Rightarrow> CellFloat (score p) | None \<Rightarrow> CellNone)"

definition team_row :: "TeamData \<Rightarrow> (string \<times> cell) list" where
  "team_row team =
     [(''name'', CellStr (team_name team)),
      (''country'', CellStr (team_country team)),
      (''kind'', CellStr (CarKind_name (team_kind team))),
      (''place'', CellInt (team_place team)),
      (''cost_place'', place_cell (cost team)), (''cost_score'', score_cell (cost team)),
      (''bp_place'', place_cell (bp team)), (''bp_score'', score_cell (bp team)),
      (''ed_place'', place_cell (ed team)), (''ed_score'', score_cell (ed team)),
      (''acc_place'', place_cell (acc team)), (''acc_score'', score_cell (acc team)),
      (''sp_place'', place_cell (sp team)), (''sp_score'', score_cell (sp team)),
      (''autox_place'', place_cell (autox team)), (''autox_score'', score_cell (autox team)),
      (''endu_place'', place_cell (endu team)), (''endu_score'', score_cell (endu team)),
      (''eff_place'', place_cell (eff team)), (''eff_score'', score_cell (eff team)),
      (''pen'', CellFloat (pen team)),
      (''total'', CellFloat (total team))]"

text \<open>Lines 182-237: the per-event file.\<close>

definition event_csv :: "TeamData list \<Rightarrow> csv_file" where
  "event_csv results =
     (event_fieldnames, map (\<lambda>team. writerow event_fieldnames (team_row team)) results)"

definition series_fieldnames :: "string list" where
  "series_fieldnames = [''id'', ''kind'', ''name'', ''teams'']"

definition series_row :: "EventData \<Rightarrow> (string \<times> cell) list" where
  "series_row event =
     [(''id'', CellInt (ev_id event)),
      (''kind'', CellStr (EventKind_name (ev_kind event))),
      (''name'', CellStr (ev_name event)),
      (''teams'', CellInt (int (length (ev_results event))))]"

text \<open>Lines 239-253: the per-series file, from the whole \<open>events\<close> dict.\<close>

definition series_csv :: "(int \<times> EventData) list \<Rightarrow> csv_file" where
  "series_csv evs =
     (series_fieldnames,
      map (\<lambda>event. writerow series_fieldnames (series_row event)) (dict_values evs))"

text \<open>\<open>open(path, "w")\<close> and the writes that follow: the file holds what was written.\<close>

definition write_file :: "string \<Rightarrow> csv_file \<Rightarrow> state \<Rightarrow> state" where
  "write_file path content s = s\<lparr>files := (files s)(path \<mapsto> content)\<rparr>"

definition print :: "string \<Rightarrow> state \<Rightarrow> state" where
  "print line s = s\<lparr>stdout := stdout s @ [line]\<rparr>"

definition skip_message :: "string \<Rightarrow> int \<Rightarrow> string" where
  "skip_message wrl_kind event_id =
     ''Skipping '' @ wrl_kind @ ''/'' @ str_int event_id
       @ '' (already scraped, probably a mixed event)''"

definition event_message :: "string \<Rightarrow> int \<Rightarrow> string \<Rightarrow> EventKind \<Rightarrow> string" where
  "event_message wrl_kind event_id event_name k =
     wrl_kind @ ''/'' @ str_int event_id @ '': '' @ event_name
       @ '' ('' @ EventKind_str k @ '')''"

text \<open>
  The body of the loop over event ids (lines 100-237). The result is the exception that
  ended the run, if any, and the state reached.
\<close>

definition process_event ::
  "env \<Rightarrow> string \<Rightarrow> string \<Rightarrow> int \<Rightarrow> state \<Rightarrow> error option \<times> state" where
  "process_event E wrl_kind url event_id s =
     (if dict_contains event_id (events s)
      then (None, print (skip_message wrl_kind event_id) s)
      else
        case get E (url @ ''/'' @ str_int event_id) s of
          (Inl e, s1) \<Rightarrow> (Some e, s1)
        | (Inr soup, s1) \<Rightarrow>
            (case page_heading soup of
               Inl e \<Rightarrow> (Some e, s1)
             | Inr (event_name, event_info) \<Rightarrow>
                 let s2 = s1\<lparr>event_kind := classify event_info (event_kind s1)\<rparr> in
                 (case event_kind s2 of
                    None \<Rightarrow> (Some NameError, s2)
                  | Some k \<Rightarrow>
                      let s3 = print (event_message wrl_kind event_id event_name k) s2 in
                      (case results_rows soup of
                         Inl e \<Rightarrow> (Some e, s3)
                       | Inr rows \<Rightarrow>
                           (case extract_rows E rows [] of
                              Inl e \<Rightarrow> (Some e, s3)
                            | Inr results \<Rightarrow>
                                let s4 = s3\<lparr>events :=
                                      dict_set event_id
                                        \<lparr>ev_id = event_id, ev_kind = k,
                                         ev_name = event_name, ev_results = results\<rparr>
                                        (events s3)\<rparr>
                                in (None,
                                    write_file (event_path event_id) (event_csv results) s4))))))"

text \<open>Line 98: the lazy \<open>map\<close> computes each id when the loop reaches its option.\<close>

definition option_id :: "env \<Rightarrow> node \<Rightarrow> error + int" where
  "option_id E x =
     (case get_attr x ''value'' of
        None \<Rightarrow> Inl KeyError
      | Some (AttrList vs) \<Rightarrow> Inl TypeError
      | Some (AttrStr v) \<Rightarrow> int_of E v)"

fun process_ids ::
  "env \<Rightarrow> string \<Rightarrow> string \<Rightarrow> node list \<Rightarrow> state \<Rightarrow> error option \<times> state" where
  "process_ids E wrl_kind url [] s = (None, s)"
| "process_ids E wrl_kind url (x # xs) s =
     (case option_id E x of
        Inl e \<Rightarrow> (Some e, s)
      | Inr event_id \<Rightarrow>
          (case process_event E wrl_kind url event_id s of
             (Some e, s') \<Rightarrow> (Some e, s')
           | (None, s') \<Rightarrow> process_ids E wrl_kind url xs s'))"

text \<open>The body of the loop over the series (lines 95-253).\<close>

definition process_series :: "env \<Rightarrow> string \<times> string \<Rightarrow> state \<Rightarrow> error option \<times> state" where
  "process_series E dataset s =
     (case dataset of (wrl_kind, url) \<Rightarrow>
        (case get E url s of
           (Inl e, s1) \<Rightarrow> (Some e, s1)
         | (Inr soup, s1) \<Rightarrow>
             (case find_first (\<lambda>t. attr_matches (get_attr t ''id'') ''WorldEvents'') soup of
                None \<Rightarrow> (Some AssertionError, s1)
              | Some (event_select, sibs) \<Rightarrow>
                  (case process_ids E wrl_kind url
                          (map fst (find_all (tag_named ''option'') event_select)) s1 of
                     (Some e, s2) \<Rightarrow> (Some e, s2)
                   | (None, s2) \<Rightarrow>
                       (None, write_file (series_path wrl_kind) (series_csv (events s2)) s2)))))"

fun run :: "env \<Rightarrow> (string \<times> string) list \<Rightarrow> state \<Rightarrow> error option \<times> state" where
  "run E [] s = (None, s)"
| "run E (dataset # datasets) s =
     (case process_series E dataset s of
        (Some e, s') \<Rightarrow> (Some e, s')
      | (None, s') \<Rightarrow> run E datasets s')"

text \<open>
  The state in which the loop starts, at time \<open>t0\<close> with the files \<open>fs\<close> on disk, and the
  script as a whole.
\<close>

definition initial_state :: "real \<Rightarrow> (string \<Rightarrow> csv_file option) \<Rightarrow> state" where
  "initial_state t0 fs =
     \<lparr>events = [], event_kind = None, scraper = Scraper_default, clock = t0,
      requests = [], files = fs, stdout = [''Saving data to data'']\<rparr>"

definition main :: "env \<Rightarrow> real \<Rightarrow> (string \<Rightarrow> csv_file option) \<Rightarrow> error option \<times> state" where
  "main E t0 fs = run E DATASETS (initial_state t0 fs)"

section \<open>The invariant of the accumulated events\<close>

text \<open>Every key of \<open>events\<close> occurs once and is the \<open>id\<close> of the event stored under it.\<close>

definition events_inv :: "(int \<times> EventData) list \<Rightarrow> bool" where
  "events_inv evs = (distinct (map fst evs) \<and> (\<forall>(k, ev) \<in> set evs. ev_id ev = k))"

section \<open>A small site to run the script on\<close>

definition dash_cell :: node where
  "dash_cell = Tag ''td'' [] [NavigableString ''-'']"

definition placed_cell :: node where
  "placed_cell =
     Tag ''td'' [] [Tag ''span'' [(''title'', AttrStr ''75.5'')] [NavigableString ''3.'']]"

definition untitled_cell :: node where
  "untitled_cell = Tag ''td'' [] [NavigableString ''3.'']"

definition rank_cell :: "string \<Rightarrow> node" where
  "rank_cell title = Tag ''td'' [(''title'', AttrStr title)] []"

definition header_row :: node where
  "header_row = Tag ''tr'' [] [Tag ''th'' [] [NavigableString ''Team'']]"

definition team_row_of :: "string \<Rightarrow> node" where
  "team_row_of car =
     Tag ''tr'' []
       [rank_cell ''USA | Team Alpha'',
        Tag ''td'' [] [NavigableString ''1.''],
        placed_cell, dash_cell, dash_cell, dash_cell, dash_cell, dash_cell, dash_cell,
        dash_cell,
        Tag ''td'' [] [NavigableString ''0''],
        Tag ''td'' [(''title'', AttrStr car)] [NavigableString ''350'']]"

definition event_page :: "string \<Rightarrow> string \<Rightarrow> node list \<Rightarrow> node" where
  "event_page title info rows =
     Tag ''[document]'' []
       [Tag ''h4'' [] [NavigableString title],
        NavigableString info,
        Tag ''h5'' [(''id'', AttrStr ''results'')] [NavigableString ''Results''],
        Tag ''table'' [(''class'', AttrList [''wrl_table''])] rows]"

definition landing_page :: "string list \<Rightarrow> node" where
  "landing_page ids =
     Tag ''[document]'' []
       [Tag ''select'' [(''id'', AttrStr ''WorldEvents'')]
          (map (\<lambda>i. Tag ''option'' [(''value'', AttrStr i)] []) ids)]"

definition page_101 :: node where
  "page_101 =
     event_page ''FS Alpha'' ''A Pure Electric competition''
       [header_row, team_row_of ''electric'']"

definition page_205 :: node where
  "page_205 = event_page ''FS Beta'' ''Season 2019'' [header_row]"

definition page_301 :: node where
  "page_301 = event_page ''FS Gamma'' ''Mixed Event'' [header_row, team_row_of ''hybrid'']"

text \<open>A detail page with a comment between the heading and the text.\<close>

definition page_401 :: node where
  "page_401 =
     Tag ''[document]'' []
       [Tag ''h4'' [] [NavigableString ''FS A''],
        Comment '' season note '',
        NavigableString ''Pure Electric event'',
        Tag ''h5'' [(''id'', AttrStr ''results'')] [NavigableString ''Results''],
        Tag ''table'' [(''class'', AttrList [''wrl_table''])] [header_row]]"

definition example_site :: "(string \<times> node) list" where
  "example_site =
     [(''https://fs-world.org/E'', landing_page [''101'']),
      (''https://fs-world.org/E/101'', page_101),
      (''https://fs-world.org/C'', landing_page [''101'', ''205'']),
      (''https://fs-world.org/C/205'', page_205),
      (''https://fs-world.org/C/301'', page_301),
      (''https://fs-world.org/C/401'', page_401)]"

definition example_latency :: "string \<Rightarrow> real" where
  "example_latency url = 5"

definition example_env :: env where
  "example_env =
     \<lparr>py_int = map_of [(''1'', 1), (''3'', 3), (''101'', 101), (''205'', 205), (''301'', 301)],
      py_float = map_of [(''0'', 0), (''350'', 350), (''75.5'', 151 / 2)],
      web = map_of example_site,
      latency = example_latency\<rparr>"

definition no_files :: "string \<Rightarrow> csv_file option" where
  "no_files = Map.empty"

definition team_alpha :: TeamData where
  "team_alpha =
     \<lparr>team_name = ''Team Alpha'', team_country = ''USA'', team_kind = Car_ELECTRIC,
      team_place = 1, cost = Some \<lparr>place = 3, score = 151 / 2\<rparr>, bp = None, ed = None,
      acc = None, sp = None, autox = None, endu = None, eff = None, pen = 0, total = 350\<rparr>"

definition event_101 :: EventData where
  "event_101 =
     \<lparr>ev_id = 101, ev_kind = Event_ELECTRIC, ev_name = ''FS Alpha'',
      ev_results = [team_alpha]\<rparr>"

text \<open>
  The run from time 100 on an empty disk: the state when the landing page of FSE has been
  fetched, and the state when its event 101 has been processed.
\<close>

definition before_101 :: state where
  "before_101 =
     \<lparr>events = [], event_kind = None,
      scraper = \<lparr>min_pause = 1, last_request = 100\<rparr>, clock = 105,
      requests = [(''https://fs-world.org/E'', 100, 105)],
      files = no_files,
      stdout = [''Saving data to data'']\<rparr>"

definition after_101 :: state where
  "after_101 =
     \<lparr>events = [(101, event_101)], event_kind = Some Event_ELECTRIC,
      scraper = \<lparr>min_pause = 1, last_request = 105\<rparr>, clock = 110,
      requests = [(''https://fs-world.org/E'', 100, 105),
                  (''https://fs-world.org/E/101'', 105, 110)],
      files = no_files(''data/events/101.csv'' \<mapsto> event_csv [team_alpha]),
      stdout = [''Saving data to data'', ''FSE/101: FS Alpha (EventKind.ELECTRIC)'']\<rparr>"

text \<open>The state once the whole series FSE has been processed.\<close>

definition after_FSE :: state where
  "after_FSE = write_file ''data/FSE.csv'' (series_csv [(101, event_101)]) after_101"

text \<open>The state at the end of the whole run, after the series FSC.\<close>

definition event_205 :: EventData where
  "event_205 =
     \<lparr>ev_id = 205, ev_kind = Event_ELECTRIC, ev_name = ''FS Beta'', ev_results = []\<rparr>"

definition after_FSC :: state where
  "after_FSC =
     \<lparr>events = [(101, event_101), (205, event_205)], event_kind = Some Event_ELECTRIC,
      scraper = \<lparr>min_pause = 1, last_request = 115\<rparr>, clock = 120,
      requests = [(''https://fs-world.org/E'', 100, 105),
                  (''https://fs-world.org/E/101'', 105, 110),
                  (''https://fs-world.org/C'', 110, 115),
                  (''https://fs-world.org/C/205'', 115, 120)],
      files = no_files
        (''data/events/101.csv'' \<mapsto> event_csv [team_alpha],
         ''data/FSE.csv'' \<mapsto> series_csv [(101, event_101)],
         ''data/events/205.csv'' \<mapsto> event_csv [],
         ''data/FSC.csv'' \<mapsto> series_csv [(101, event_101), (205, event_205)]),
      stdout = [''Saving data to data'', ''FSE/101: FS Alpha (EventKind.ELECTRIC)'',
                ''Skipping FSC/101 (already scraped, probably a mixed event)'',
                ''FSC/205: FS Beta (EventKind.ELECTRIC)'']\<rparr>"

text \<open>A state in which the previous request was sent a quarter of a second ago.\<close>

definition hasty_state :: state where
  "hasty_state =
     \<lparr>events = [], event_kind = None,
      scraper = \<lparr>min_pause = 1, last_request = 100\<rparr>, clock = 401 / 4,
      requests = [(''https://fs-world.org/E'', 100, 401 / 4)],
      files = no_files,
      stdout = [''Saving data to data'']\<rparr>"

text \<open>Two requests in a row, each answered after 5 seconds.\<close>

definition two_requests :: state where
  "two_requests =
     snd (get example_env ''https://fs-world.org/E/101''
            (snd (get example_env ''https://fs-world.org/E'' (initial_state 100 no_files))))"

section \<open>Evaluating the example\<close>

lemmas tree_defs = find_first_def find_all_def has_attr_def rstrip_def

lemmas cell_defs = dash_cell_def placed_cell_def untitled_cell_def rank_cell_def

lemmas page_defs = header_row_def team_row_of_def event_page_def landing_page_def
  page_101_def page_205_def page_301_def page_401_def

lemmas env_defs = example_env_def example_site_def example_latency_def

lemma extract_row_team_alpha:
  "extract_row example_env (team_row_of ''electric'') = Inr (Some team_alpha)"
  by (simp add: extract_row_def tree_defs cell_defs page_defs example_env_def bind_err_def
      country_name_def int_of_def float_of_def item_def car_kind_def
      extract_discipline_data_def team_alpha_def)

lemma extract_row_header: "extract_row E header_row = Inr None"
  by (simp add: extract_row_def tree_defs header_row_def)

text \<open>The loop body on event 101, the two series and the whole script, computed step by step.\<close>

lemmas run_defs = process_event_def get_def requests_get_def sleep_def page_heading_def
  lower_def lower_char_def classify_def results_rows_def bind_err_def
  extract_row_def country_name_def int_of_def float_of_def item_def car_kind_def
  extract_discipline_data_def option_id_def
  event_message_def skip_message_def EventKind_str_def event_path_def series_path_def
  str_int_def str_nat.simps digit_char_def write_file_def print_def dict_contains_def

lemma example_process_101:
  "process_event example_env ''FSE'' ''https://fs-world.org/E'' 101 before_101 =
     (None, after_101)"
  by (simp add: run_defs tree_defs cell_defs page_defs env_defs before_101_def after_101_def
      event_101_def team_alpha_def)

lemma example_series_FSE:
  "process_series example_env (''FSE'', ''https://fs-world.org/E'') (initial_state 100 no_files)
     = (None, after_FSE)"
  by (simp add: process_series_def run_defs tree_defs cell_defs page_defs env_defs
      initial_state_def Scraper_default_def Scraper_init_def after_FSE_def after_101_def
      event_101_def team_alpha_def)

lemma example_series_FSC:
  "process_series example_env (''FSC'', ''https://fs-world.org/C'') after_FSE = (None, after_FSC)"
  by (simp add: process_series_def run_defs tree_defs cell_defs page_defs env_defs
      after_FSE_def after_101_def after_FSC_def event_101_def event_205_def team_alpha_def)

lemma example_main: "main example_env 100 no_files = (None, after_FSC)"
  by (simp add: main_def DATASETS_def example_series_FSE example_series_FSC)

section \<open>Discipline cells\<close>

text \<open>
  C1. Decoding a discipline cell gives \<open>None\<close> exactly when the cell text without its
  trailing dots is \<open>-\<close>. It gives a placement exactly when that text is something else
  that \<open>int()\<close> reads, the first descendant carrying a \<open>title\<close> attribute has a string
  there that \<open>float()\<close> reads, and then \<open>place\<close> and \<open>score\<close> are those two numbers.
\<close>

theorem extract_discipline_data_decodes:
  "(extract_discipline_data E col = Inr None \<longleftrightarrow> rstrip ''.'' (text_of col) = ''-'') \<and>
   (extract_discipline_data E col = Inr (Some p) \<longleftrightarrow>
      rstrip ''.'' (text_of col) \<noteq> ''-'' \<and>
      py_int E (rstrip ''.'' (text_of col)) = Some (place p) \<and>
      (\<exists>tooltip sibs title.
          find_first (\<lambda>tag. has_attr tag ''title'') col = Some (tooltip, sibs) \<and>
          get_attr tooltip ''title'' = Some (AttrStr title) \<and>
          py_float E title = Some (score p)))"
  by (cases p)
    (auto simp: extract_discipline_data_def Let_def split: option.splits attr_value.splits)

theorem extract_discipline_data_decodes_witness:
  "extract_discipline_data example_env dash_cell = Inr None \<and>
   extract_discipline_data example_env placed_cell = Inr (Some \<lparr>place = 3, score = 151 / 2\<rparr>)"
  using extract_discipline_data_decodes [of example_env dash_cell]
    extract_discipline_data_decodes
      [of example_env placed_cell "\<lparr>place = 3, score = 151 / 2\<rparr>"]
  by (simp add: tree_defs cell_defs example_env_def)

text \<open>
  C7. A discipline cell whose text without trailing dots is not \<open>-\<close> and which has no
  descendant with a \<open>title\<close> attribute never decodes: the result is an exception (the
  ValueError of \<open>int()\<close>, or else the failed assertion on the tooltip), not \<open>None\<close>.
\<close>

theorem extract_discipline_data_untitled:
  assumes "rstrip ''.'' (text_of col) \<noteq> ''-''"
    and "find_first (\<lambda>tag. has_attr tag ''title'') col = None"
  shows "extract_discipline_data E col =
           (if py_int E (rstrip ''.'' (text_of col)) = None then Inl ValueError
            else Inl AssertionError)"
  using assms by (auto simp: extract_discipline_data_def Let_def split: option.splits)

theorem extract_discipline_data_untitled_witness:
  "text_of untitled_cell = ''3.'' \<and>
   rstrip ''.'' (text_of untitled_cell) \<noteq> ''-'' \<and>
   find_first (\<lambda>tag. has_attr tag ''title'') untitled_cell = None \<and>
   extract_discipline_data example_env untitled_cell = Inl AssertionError"
proof -
  have t: "rstrip ''.'' (text_of untitled_cell) \<noteq> ''-''"
    by (simp add: tree_defs cell_defs)
  have f: "find_first (\<lambda>tag. has_attr tag ''title'') untitled_cell = None"
    by (simp add: tree_defs cell_defs)
  from extract_discipline_data_untitled [OF t f, of example_env] t f show ?thesis
    by (simp add: tree_defs cell_defs example_env_def)
qed

section \<open>Car kind\<close>

lemma extract_row_unknown_kind:
  assumes "find_first (tag_named ''th'') row = None"
    and "length (find_all (tag_named ''td'') row) = 12"
    and "get_attr (fst (find_all (tag_named ''td'') row ! 11)) ''title'' = Some v"
    and "car_kind v = Inl ValueError"
  shows "\<exists>e. extract_row E row = Inl e"
  using assms
  by (auto simp: extract_row_def Let_def bind_err_def item_def split: sum.splits prod.splits)

text \<open>
  C5. The title attribute of the total-score cell decodes to ELECTRIC, COMBUSTION or OTHER
  exactly when it is the string \<open>electric\<close>, \<open>combustion\<close> or \<open>other\<close>; any other value is
  a ValueError, and a data row carrying such a value yields an exception, not a team.
\<close>

theorem car_kind_decodes:
  "(car_kind v = Inr Car_ELECTRIC \<longleftrightarrow> v = AttrStr ''electric'') \<and>
   (car_kind v = Inr Car_COMBUSTION \<longleftrightarrow> v = AttrStr ''combustion'') \<and>
   (car_kind v = Inr Car_OTHER \<longleftrightarrow> v = AttrStr ''other'') \<and>
   (v \<notin> {AttrStr ''electric'', AttrStr ''combustion'', AttrStr ''other''} \<longrightarrow>
      car_kind v = Inl ValueError \<and>
      (\<forall>E row. find_first (tag_named ''th'') row = None \<longrightarrow>
         length (find_all (tag_named ''td'') row) = 12 \<longrightarrow>
         get_attr (fst (find_all (tag_named ''td'') row ! 11)) ''title'' = Some v \<longrightarrow>
         (\<exists>e. extract_row E row = Inl e)))"
proof -
  have "car_kind v = Inl ValueError"
    if "v \<notin> {AttrStr ''electric'', AttrStr ''combustion'', AttrStr ''other''}"
    using that by (simp add: car_kind_def)
  then show ?thesis
    by (auto simp: car_kind_def intro: extract_row_unknown_kind)
qed

theorem car_kind_decodes_witness:
  "car_kind (AttrStr ''electric'') = Inr Car_ELECTRIC \<and>
   car_kind (AttrStr ''combustion'') = Inr Car_COMBUSTION \<and>
   car_kind (AttrStr ''other'') = Inr Car_OTHER \<and>
   car_kind (AttrStr ''Electric'') = Inl ValueError \<and>
   car_kind (AttrStr ''hybrid'') = Inl ValueError \<and>
   (\<exists>e. extract_row example_env (team_row_of ''hybrid'') = Inl e)"
  using car_kind_decodes [of "AttrStr ''electric''"] car_kind_decodes [of "AttrStr ''combustion''"]
    car_kind_decodes [of "AttrStr ''other''"] car_kind_decodes [of "AttrStr ''Electric''"]
    car_kind_decodes [of "AttrStr ''hybrid''"]
  by (simp add: tree_defs cell_defs page_defs)

section \<open>Country and name\<close>

lemma take_eq_length: "take (length sub) s = sub \<Longrightarrow> length sub \<le> length s"
proof -
  assume h: "take (length sub) s = sub"
  have "length (take (length sub) s) \<le> length s" by simp
  with h show ?thesis by simp
qed

lemma py_in_length: "py_in sub s \<Longrightarrow> length sub \<le> length s"
proof (induction s)
  case Nil
  then show ?case by simp
next
  case (Cons c cs)
  from Cons.prems have "take (length sub) (c # cs) = sub \<or> py_in sub cs" by simp
  then show ?case
  proof
    assume "take (length sub) (c # cs) = sub"
    then show ?thesis by (rule take_eq_length)
  next
    assume "py_in sub cs"
    then have "length sub \<le> length cs" by (rule Cons.IH)
    then show ?thesis by simp
  qed
qed

lemma not_py_in_butlast: "sep \<noteq> [] \<Longrightarrow> \<not> py_in sep (butlast sep)"
proof
  assume ne: "sep \<noteq> []" and inb: "py_in sep (butlast sep)"
  from inb have "length sep \<le> length (butlast sep)" by (rule py_in_length)
  moreover have "length (butlast sep) < length sep" using ne by simp
  ultimately show False by linarith
qed

text \<open>The first \<open>length sep\<close> characters of \<open>x # a @ sep @ b\<close> lie within \<open>x # a @ butlast sep\<close>.\<close>

lemma take_sep_append:
  assumes "sep \<noteq> []"
  shows "take (length sep) ((x # a) @ sep @ b) = take (length sep) ((x # a) @ butlast sep)"
proof -
  have "sep @ b = butlast sep @ (last sep # b)" using assms by simp
  then have "(x # a) @ sep @ b = ((x # a) @ butlast sep) @ (last sep # b)" by simp
  moreover have "length sep \<le> length ((x # a) @ butlast sep)" using assms by (cases sep) auto
  ultimately show ?thesis by (metis append.right_neutral diff_is_0_eq take_0 take_append)
qed

text \<open>
  \<open>partition_first\<close> cuts at the leftmost occurrence: the part before the cut, extended
  by all but the last character of the separator, holds no occurrence.
\<close>

lemma partition_first_iff:
  assumes "sep \<noteq> []"
  shows "partition_first sep s = Some (a, b) \<longleftrightarrow>
           s = a @ sep @ b \<and> \<not> py_in sep (a @ butlast sep)"
proof (induction s arbitrary: a)
  case Nil
  then show ?case using assms by simp
next
  case (Cons c cs)
  show ?case
  proof (cases "take (length sep) (c # cs) = sep")
    case True
    then have eq: "c # cs = sep @ drop (length sep) (c # cs)"
      by (metis append_take_drop_id)
    show ?thesis
    proof (cases a)
      case Nil
      then show ?thesis using True eq assms not_py_in_butlast [OF assms]
        by (auto simp del: take_Suc_Cons drop_Suc_Cons)
    next
      case (Cons x a')
      have "py_in sep (a @ butlast sep)" if h: "c # cs = a @ sep @ b"
      proof -
        have "take (length sep) ((x # a') @ butlast sep) = sep"
          using True h Cons take_sep_append [OF assms, of x a' b] by simp
        then show ?thesis using Cons by simp
      qed
      then show ?thesis using True Cons by auto
    qed
  next
    case False
    show ?thesis
    proof (cases a)
      case Nil
      then show ?thesis using False by (auto simp del: take_Suc_Cons)
    next
      case (Cons x a')
      have "take (length sep) ((x # a') @ butlast sep) \<noteq> sep" if "c # cs = a @ sep @ b"
        using that False Cons take_sep_append [OF assms, of x a' b] by simp
      then show ?thesis using False Cons Cons.IH [of a']
        by (auto simp del: take_Suc_Cons)
    qed
  qed
qed

lemma partition_first_None: "sep \<noteq> [] \<Longrightarrow> partition_first sep s = None \<longleftrightarrow> \<not> py_in sep s"
  by (induction s) auto

lemma split_n_once:
  "split_n sep 1 s = (case partition_first sep s of None \<Rightarrow> [s] | Some (a, b) \<Rightarrow> [a, b])"
  by (simp split: option.splits)

lemma split_n_once_length:
  "sep \<noteq> [] \<Longrightarrow> length (split_n sep 1 s) = (if py_in sep s then 2 else 1)"
  using partition_first_None [of sep s] by (auto simp: split_n_once split: option.splits)

text \<open>
  C4. The title attribute of the rank cell decodes to the pair (country, name) exactly
  when it is the country, the delimiter \<open>" | "\<close> and the name, with that delimiter the
  first one in the title (none begins inside the country); the name may hold further
  delimiters. The split gives two parts when the delimiter occurs and one part
  otherwise, never more; a title giving other than two parts is a ValueError.
\<close>

theorem country_name_splits_once:
  "(country_name col = Inr (c, n) \<longleftrightarrow>
      (\<exists>title. get_attr col ''title'' = Some (AttrStr title) \<and>
         title = c @ '' | '' @ n \<and> \<not> py_in '' | '' (c @ '' |''))) \<and>
   (\<forall>title. get_attr col ''title'' = Some (AttrStr title) \<longrightarrow>
      length (split_n '' | '' 1 title) = (if py_in '' | '' title then 2 else 1) \<and>
      (length (split_n '' | '' 1 title) \<noteq> 2 \<longrightarrow> country_name col = Inl ValueError))"
proof -
  have sep: "'' | '' \<noteq> []" by simp
  have cut: "partition_first '' | '' title = Some (a, b) \<longleftrightarrow>
               title = a @ '' | '' @ b \<and> \<not> py_in '' | '' (a @ '' |'')" for title a b
    using partition_first_iff [OF sep, of title a b] by simp
  have pair: "country_name col = Inr (c, n) \<longleftrightarrow>
      (\<exists>title. get_attr col ''title'' = Some (AttrStr title) \<and>
         partition_first '' | '' title = Some (c, n))"
    by (auto simp: country_name_def split_n_once split: option.splits attr_value.splits)
  have err: "country_name col = Inl ValueError"
    if "get_attr col ''title'' = Some (AttrStr title)"
      and "length (split_n '' | '' 1 title) \<noteq> 2" for title
    using that by (auto simp: country_name_def split_n_once split: option.splits)
  show ?thesis
    using pair cut err split_n_once_length [OF sep] by (simp del: split_n.simps)
qed

theorem country_name_splits_once_witness:
  "country_name (rank_cell ''USA | Team Alpha'') = Inr (''USA'', ''Team Alpha'') \<and>
   country_name (rank_cell ''USA | Team | Alpha'') = Inr (''USA'', ''Team | Alpha'') \<and>
   length (split_n '' | '' 1 ''USA | Team | Alpha'') = 2 \<and>
   length (split_n '' | '' 1 ''USA Team Alpha'') = 1 \<and>
   country_name (rank_cell ''USA Team Alpha'') = Inl ValueError"
  using country_name_splits_once [of "rank_cell ''USA | Team Alpha''" "''USA''" "''Team Alpha''"]
    country_name_splits_once
      [of "rank_cell ''USA | Team | Alpha''" "''USA''" "''Team | Alpha''"]
    country_name_splits_once [of "rank_cell ''USA Team Alpha''" "''USA''" "''Team Alpha''"]
  by (simp add: rank_cell_def del: split_n.simps)

section \<open>What one pass of the main loop does\<close>

lemma get_frame:
  "get E u s = (r, s1) \<Longrightarrow>
     events s1 = events s \<and> event_kind s1 = event_kind s \<and> files s1 = files s \<and>
     stdout s1 = stdout s"
  by (auto simp: get_def requests_get_def sleep_def Let_def split: option.splits if_splits)

lemma dict_set_fresh: "\<not> dict_contains k d \<Longrightarrow> dict_set k v d = d @ [(k, v)]"
  by (induction d) (auto simp: dict_contains_def)

lemma dict_set_mem: "(k, v) \<in> set (dict_set k v d)"
  by (induction d) auto

lemma dict_contains_set: "dict_contains k (dict_set k v d)"
  unfolding dict_contains_def using dict_set_mem [of k v d] by force

text \<open>
  The loop body either skips an id that is present, or ends in an exception with
  \<open>events\<close> and the files as they were, or appends the event and writes its file.
\<close>

lemma process_event_effect:
  assumes "process_event E w u i s = (r, s')"
  shows "(dict_contains i (events s) \<and> r = None \<and> s' = print (skip_message w i) s) \<or>
         (\<not> dict_contains i (events s) \<and> (\<exists>e. r = Some e) \<and>
            events s' = events s \<and> files s' = files s) \<or>
         (\<not> dict_contains i (events s) \<and> r = None \<and>
            (\<exists>k name rows results soup s1.
               get E (u @ ''/'' @ str_int i) s = (Inr soup, s1) \<and>
               results_rows soup = Inr rows \<and>
               extract_rows E rows [] = Inr results \<and>
               event_kind s' = Some k \<and>
               events s' = events s @
                 [(i, \<lparr>ev_id = i, ev_kind = k, ev_name = name, ev_results = results\<rparr>)] \<and>
               files s' = (files s)(event_path i \<mapsto> event_csv results)))"
  using assms
  by (auto simp: process_event_def Let_def print_def write_file_def dict_set_fresh
      split: if_splits sum.splits option.splits prod.splits dest!: get_frame)

lemma process_event_None_contains:
  assumes "process_event E w u i s = (None, s')"
  shows "dict_contains i (events s')"
  using process_event_effect [OF assms] by (auto simp: dict_contains_def print_def)

lemma extract_rows_fails:
  "row \<in> set rows \<Longrightarrow> extract_row E row = Inl e \<Longrightarrow> \<exists>e'. extract_rows E rows results = Inl e'"
  by (induction rows arbitrary: results) (auto split: sum.splits option.splits)

section \<open>Events seen before\<close>

text \<open>
  C3. An event id that is in \<open>events\<close> is skipped: the loop body raises nothing and
  changes nothing but the output, to which the note is added, so no request is sent and
  \<open>events\<close> and the files stay as they are. After any pass that raised nothing the id is
  in \<open>events\<close>, so a second pass for it, under whatever series, is such a skip.
\<close>

theorem process_event_skips_seen:
  "(dict_contains i (events s) \<longrightarrow>
      process_event E w u i s = (None, s\<lparr>stdout := stdout s @ [skip_message w i]\<rparr>)) \<and>
   (fst (process_event E w u i s) = None \<longrightarrow>
      (let s' = snd (process_event E w u i s); s'' = snd (process_event E w' u' i s') in
       fst (process_event E w' u' i s') = None \<and>
       events s'' = events s' \<and> requests s'' = requests s' \<and> files s'' = files s' \<and>
       stdout s'' = stdout s' @ [skip_message w' i] \<and>
       s'' = s'\<lparr>stdout := stdout s' @ [skip_message w' i]\<rparr>))"
proof -
  have skip: "process_event E w u i s = (None, s\<lparr>stdout := stdout s @ [skip_message w i]\<rparr>)"
    if "dict_contains i (events s)" for w u s
    using that by (simp add: process_event_def print_def)
  have "dict_contains i (events (snd (process_event E w u i s)))"
    if "fst (process_event E w u i s) = None"
    using that process_event_None_contains [of E w u i s "snd (process_event E w u i s)"]
    by (metis prod.collapse)
  then show ?thesis
    using skip by (simp add: Let_def)
qed

theorem process_event_skips_seen_witness:
  "dict_contains 101 (events after_101) \<and>
   process_event example_env ''FSC'' ''https://fs-world.org/C'' 101 after_101 =
     (None, after_101\<lparr>stdout := stdout after_101 @
        [''Skipping FSC/101 (already scraped, probably a mixed event)'']\<rparr>) \<and>
   fst (process_event example_env ''FSE'' ''https://fs-world.org/E'' 101 before_101) = None \<and>
   requests (snd (process_event example_env ''FSC'' ''https://fs-world.org/C'' 101
      (snd (process_event example_env ''FSE'' ''https://fs-world.org/E'' 101 before_101))))
     = requests after_101"
proof -
  have seen: "dict_contains 101 (events after_101)"
    by (simp add: after_101_def dict_contains_def)
  have msg: "skip_message ''FSC'' 101 =
      ''Skipping FSC/101 (already scraped, probably a mixed event)''"
    by (simp add: skip_message_def str_int_def str_nat.simps digit_char_def)
  have first: "fst (process_event example_env ''FSE'' ''https://fs-world.org/E'' 101 before_101)
      = None"
    by (simp add: example_process_101)
  from process_event_skips_seen
    [where i = 101 and s = after_101 and E = example_env and w = "''FSC''"
      and u = "''https://fs-world.org/C''"]
    process_event_skips_seen
    [where i = 101 and s = before_101 and E = example_env and w = "''FSE''"
      and u = "''https://fs-world.org/E''" and w' = "''FSC''"
      and u' = "''https://fs-world.org/C''"]
    seen first
  show ?thesis
    by (simp add: msg Let_def example_process_101)
qed

section \<open>A failing row\<close>

text \<open>
  C9. When the detail page of an id that is not yet in \<open>events\<close> has been fetched and
  one row of its results table fails to decode, the loop body ends in an exception,
  \<open>events\<close> is as before (so it has no entry for the id) and every file is as before (so
  no per-event file has been written).
\<close>

theorem failed_row_leaves_no_trace:
  assumes "\<not> dict_contains i (events s)"
    and "fst (get E (u @ ''/'' @ str_int i) s) = Inr soup"
    and "results_rows soup = Inr rows"
    and "row \<in> set rows"
    and "extract_row E row = Inl e"
  shows "(\<exists>e'. fst (process_event E w u i s) = Some e') \<and>
         events (snd (process_event E w u i s)) = events s \<and>
         \<not> dict_contains i (events (snd (process_event E w u i s))) \<and>
         files (snd (process_event E w u i s)) = files s"
proof -
  obtain r s' where run: "process_event E w u i s = (r, s')"
    by (cases "process_event E w u i s")
  from assms(4,5) have fails: "\<exists>e'. extract_rows E rows [] = Inl e'"
    by (rule extract_rows_fails)
  have "(\<exists>e'. r = Some e') \<and> events s' = events s \<and> files s' = files s"
    using process_event_effect [OF run] assms(1,2,3) fails by auto
  with run assms(1) show ?thesis by simp
qed

theorem failed_row_leaves_no_trace_witness:
  "\<not> dict_contains 301 (events before_101) \<and>
   fst (get example_env (''https://fs-world.org/C'' @ ''/'' @ str_int 301) before_101)
     = Inr page_301 \<and>
   results_rows page_301 = Inr [header_row, team_row_of ''hybrid''] \<and>
   extract_row example_env (team_row_of ''hybrid'') = Inl ValueError \<and>
   (\<exists>e'. fst (process_event example_env ''FSC'' ''https://fs-world.org/C'' 301 before_101)
      = Some e') \<and>
   events (snd (process_event example_env ''FSC'' ''https://fs-world.org/C'' 301 before_101))
     = [] \<and>
   files (snd (process_event example_env ''FSC'' ''https://fs-world.org/C'' 301 before_101))
     (event_path 301) = None"
proof -
  have fresh: "\<not> dict_contains 301 (events before_101)"
    by (simp add: before_101_def dict_contains_def)
  have page: "fst (get example_env (''https://fs-world.org/C'' @ ''/'' @ str_int 301)
      before_101) = Inr page_301"
    by (simp add: get_def requests_get_def sleep_def before_101_def env_defs str_int_def
        str_nat.simps digit_char_def)
  have rows: "results_rows page_301 = Inr [header_row, team_row_of ''hybrid'']"
    by (simp add: results_rows_def tree_defs cell_defs page_defs)
  have mem: "team_row_of ''hybrid'' \<in> set [header_row, team_row_of ''hybrid'']"
    by simp
  have bad: "extract_row example_env (team_row_of ''hybrid'') = Inl ValueError"
    by (simp add: extract_row_def tree_defs cell_defs page_defs example_env_def bind_err_def
        country_name_def int_of_def float_of_def item_def car_kind_def
        extract_discipline_data_def)
  from failed_row_leaves_no_trace [OF fresh page rows mem bad, of "''FSC''"] fresh page rows bad
  show ?thesis
    by (simp add: before_101_def no_files_def)
qed

section \<open>The accumulated events\<close>

lemma events_inv_append:
  "events_inv evs \<Longrightarrow> \<not> dict_contains i evs \<Longrightarrow> ev_id ev = i \<Longrightarrow> events_inv (evs @ [(i, ev)])"
  by (auto simp: events_inv_def dict_contains_def)

lemma process_event_grows:
  assumes "process_event E w u i s = (r, s')"
  shows "\<exists>new. events s' = events s @ new"
  using process_event_effect [OF assms] by (auto simp: print_def)

lemma process_event_inv:
  assumes "process_event E w u i s = (r, s')" and "events_inv (events s)"
  shows "events_inv (events s')"
  using process_event_effect [OF assms(1)] assms(2)
  by (auto simp: print_def events_inv_append)

lemma process_ids_grows:
  "process_ids E w u xs s = (r, s') \<Longrightarrow> \<exists>new. events s' = events s @ new"
proof (induction xs arbitrary: s)
  case Nil
  then show ?case by simp
next
  case (Cons x xs)
  show ?case
  proof (cases "option_id E x")
    case (Inl e)
    with Cons.prems show ?thesis by simp
  next
    case (Inr event_id)
    obtain r1 s1 where step: "process_event E w u event_id s = (r1, s1)"
      by (cases "process_event E w u event_id s")
    from process_event_grows [OF step] obtain new1 where g1: "events s1 = events s @ new1" ..
    show ?thesis
    proof (cases r1)
      case None
      with Cons.prems Inr step have "process_ids E w u xs s1 = (r, s')" by simp
      from Cons.IH [OF this] obtain new2 where "events s' = events s1 @ new2" ..
      with g1 show ?thesis by simp
    next
      case (Some e)
      with Cons.prems Inr step have "s' = s1" by simp
      with g1 show ?thesis by simp
    qed
  qed
qed

lemma process_ids_inv:
  "process_ids E w u xs s = (r, s') \<Longrightarrow> events_inv (events s) \<Longrightarrow> events_inv (events s')"
proof (induction xs arbitrary: s)
  case Nil
  then show ?case by simp
next
  case (Cons x xs)
  show ?case
  proof (cases "option_id E x")
    case (Inl e)
    with Cons.prems show ?thesis by simp
  next
    case (Inr event_id)
    obtain r1 s1 where step: "process_event E w u event_id s = (r1, s1)"
      by (cases "process_event E w u event_id s")
    from process_event_inv [OF step Cons.prems(2)] have i1: "events_inv (events s1)" .
    show ?thesis
    proof (cases r1)
      case None
      with Cons.prems Inr step have "process_ids E w u xs s1 = (r, s')" by simp
      from Cons.IH [OF this i1] show ?thesis .
    next
      case (Some e)
      with Cons.prems Inr step have "s' = s1" by simp
      with i1 show ?thesis by simp
    qed
  qed
qed

text \<open>A series leaves \<open>events\<close> as its loop over the ids left it.\<close>

lemma process_series_events:
  assumes "process_series E (w, u) s = (r, s')"
  shows "events s' = events s \<or>
         (\<exists>xs s1 r2 s2. events s1 = events s \<and> process_ids E w u xs s1 = (r2, s2) \<and>
            events s' = events s2)"
proof -
  obtain r1 s1 where g: "get E u s = (r1, s1)" by (cases "get E u s")
  from get_frame [OF g] have e1: "events s1 = events s" by simp
  show ?thesis
  proof (cases r1)
    case (Inl e)
    with assms g e1 show ?thesis by (simp add: process_series_def)
  next
    case (Inr soup)
    show ?thesis
    proof (cases "find_first (\<lambda>t. attr_matches (get_attr t ''id'') ''WorldEvents'') soup")
      case None
      with assms g e1 Inr show ?thesis by (simp add: process_series_def)
    next
      case (Some el)
      obtain event_select sibs where el: "el = (event_select, sibs)" by (cases el)
      obtain r2 s2 where p: "process_ids E w u
          (map fst (find_all (tag_named ''option'') event_select)) s1 = (r2, s2)"
        by (cases "process_ids E w u (map fst (find_all (tag_named ''option'') event_select)) s1")
      have "events s' = events s2"
        using assms g Inr Some el p
        by (cases r2) (auto simp: process_series_def write_file_def)
      with e1 p show ?thesis by blast
    qed
  qed
qed

lemma process_series_grows:
  assumes "process_series E d s = (r, s')"
  shows "\<exists>new. events s' = events s @ new"
proof -
  obtain w u where d: "d = (w, u)" by (cases d)
  from process_series_events [OF assms [unfolded d]] show ?thesis
  proof
    assume "events s' = events s"
    then show ?thesis by simp
  next
    assume "\<exists>xs s1 r2 s2. events s1 = events s \<and> process_ids E w u xs s1 = (r2, s2) \<and>
        events s' = events s2"
    then obtain xs s1 r2 s2 where "events s1 = events s"
      and "process_ids E w u xs s1 = (r2, s2)" and "events s' = events s2" by blast
    with process_ids_grows [of E w u xs s1 r2 s2] show ?thesis by simp
  qed
qed

lemma process_series_inv:
  assumes "process_series E d s = (r, s')" and "events_inv (events s)"
  shows "events_inv (events s')"
proof -
  obtain w u where d: "d = (w, u)" by (cases d)
  from process_series_events [OF assms(1) [unfolded d]] show ?thesis
  proof
    assume "events s' = events s"
    with assms(2) show ?thesis by simp
  next
    assume "\<exists>xs s1 r2 s2. events s1 = events s \<and> process_ids E w u xs s1 = (r2, s2) \<and>
        events s' = events s2"
    then obtain xs s1 r2 s2 where "events s1 = events s"
      and "process_ids E w u xs s1 = (r2, s2)" and "events s' = events s2" by blast
    with process_ids_inv [of E w u xs s1 r2 s2] assms(2) show ?thesis by simp
  qed
qed

lemma run_grows: "run E ds s = (r, s') \<Longrightarrow> \<exists>new. events s' = events s @ new"
proof (induction ds arbitrary: s)
  case Nil
  then show ?case by simp
next
  case (Cons d ds)
  obtain r1 s1 where step: "process_series E d s = (r1, s1)"
    by (cases "process_series E d s")
  from process_series_grows [OF step] obtain new1 where g1: "events s1 = events s @ new1" ..
  show ?case
  proof (cases r1)
    case None
    with Cons.prems step have "run E ds s1 = (r, s')" by simp
    from Cons.IH [OF this] obtain new2 where "events s' = events s1 @ new2" ..
    with g1 show ?thesis by simp
  next
    case (Some e)
    with Cons.prems step have "s' = s1" by simp
    with g1 show ?thesis by simp
  qed
qed

lemma run_inv: "run E ds s = (r, s') \<Longrightarrow> events_inv (events s) \<Longrightarrow> events_inv (events s')"
proof (induction ds arbitrary: s)
  case Nil
  then show ?case by simp
next
  case (Cons d ds)
  obtain r1 s1 where step: "process_series E d s = (r1, s1)"
    by (cases "process_series E d s")
  from process_series_inv [OF step Cons.prems(2)] have i1: "events_inv (events s1)" .
  show ?case
  proof (cases r1)
    case None
    with Cons.prems step have "run E ds s1 = (r, s')" by simp
    from Cons.IH [OF this i1] show ?thesis .
  next
    case (Some e)
    with Cons.prems step have "s' = s1" by simp
    with i1 show ?thesis by simp
  qed
qed

lemma events_inv_lookup: "events_inv evs \<Longrightarrow> map_of evs k = Some ev \<Longrightarrow> ev_id ev = k"
  by (auto simp: events_inv_def dest: map_of_SomeD)

lemma lookup_append: "map_of evs k = Some ev \<Longrightarrow> map_of (evs @ new) k = Some ev"
  by (simp add: map_add_Some_iff)

text \<open>
  C10. From a state in which every key of \<open>events\<close> is the \<open>id\<close> of its event (and occurs
  once), the loop body for one event id, a whole series and any run of series, whether
  they end normally or in an exception, lead to a state in which that holds again, and
  the earlier \<open>events\<close> is an initial part of the later one: every entry is still there,
  at its place and with its value. The script starts from the empty dict, so this holds
  in whatever state it ends.
\<close>

theorem events_invariant_kept:
  assumes "events_inv (events s)"
  shows "events_inv (events (snd (process_event E w u i s))) \<and>
         (\<exists>new. events (snd (process_event E w u i s)) = events s @ new) \<and>
         events_inv (events (snd (process_series E d s))) \<and>
         (\<exists>new. events (snd (process_series E d s)) = events s @ new) \<and>
         events_inv (events (snd (run E ds s))) \<and>
         (\<exists>new. events (snd (run E ds s)) = events s @ new) \<and>
         (\<forall>k ev. map_of (events (snd (run E ds s))) k = Some ev \<longrightarrow> ev_id ev = k) \<and>
         (\<forall>k ev. map_of (events s) k = Some ev \<longrightarrow>
            map_of (events (snd (run E ds s))) k = Some ev) \<and>
         events_inv (events (snd (main E t0 fs)))"
proof -
  obtain r1 s1 where a: "process_event E w u i s = (r1, s1)"
    by (cases "process_event E w u i s")
  obtain r2 s2 where b: "process_series E d s = (r2, s2)"
    by (cases "process_series E d s")
  obtain r3 s3 where c: "run E ds s = (r3, s3)"
    by (cases "run E ds s")
  obtain r4 s4 where m: "run E DATASETS (initial_state t0 fs) = (r4, s4)"
    by (cases "run E DATASETS (initial_state t0 fs)")
  have start: "events_inv (events (initial_state t0 fs))"
    by (simp add: initial_state_def events_inv_def)
  from run_grows [OF c] obtain new where g3: "events s3 = events s @ new" ..
  have i3: "events_inv (events s3)"
    using c assms by (rule run_inv)
  have "\<forall>k ev. map_of (events s3) k = Some ev \<longrightarrow> ev_id ev = k"
    using i3 by (blast intro: events_inv_lookup)
  moreover have "\<forall>k ev. map_of (events s) k = Some ev \<longrightarrow> map_of (events s3) k = Some ev"
    unfolding g3 by (blast intro: lookup_append)
  moreover have "events_inv (events s4)"
    using m start by (rule run_inv)
  ultimately show ?thesis
    using process_event_inv [OF a assms] process_event_grows [OF a]
      process_series_inv [OF b assms] process_series_grows [OF b] i3 run_grows [OF c]
    by (simp add: a b c m main_def)
qed

theorem events_invariant_kept_witness:
  "events_inv (events after_FSE) \<and>
   events_inv (events (snd (run example_env [(''FSC'', ''https://fs-world.org/C'')] after_FSE))) \<and>
   events (snd (run example_env [(''FSC'', ''https://fs-world.org/C'')] after_FSE))
     = events after_FSE @ [(205, event_205)] \<and>
   map_of (events (snd (run example_env [(''FSC'', ''https://fs-world.org/C'')] after_FSE))) 101
     = Some event_101 \<and>
   ev_id event_101 = 101"
proof -
  have inv: "events_inv (events after_FSE)"
    by (simp add: after_FSE_def after_101_def write_file_def events_inv_def event_101_def)
  have evs: "events after_FSE = [(101, event_101)]"
    by (simp add: after_FSE_def after_101_def write_file_def)
  from events_invariant_kept
    [OF inv, where E = example_env and ds = "[(''FSC'', ''https://fs-world.org/C'')]"]
  have "\<forall>k ev. map_of (events after_FSE) k = Some ev \<longrightarrow>
      map_of (events (snd (run example_env [(''FSC'', ''https://fs-world.org/C'')] after_FSE))) k
        = Some ev"
    and "events_inv
      (events (snd (run example_env [(''FSC'', ''https://fs-world.org/C'')] after_FSE)))"
    by blast+
  with inv evs show ?thesis
    by (simp add: example_series_FSC after_FSC_def event_101_def)
qed

section \<open>The per-series file\<close>

lemma process_series_writes:
  assumes "process_series E (w, u) s = (None, s')"
  shows "files s' (series_path w) = Some (series_csv (events s'))"
  using assms
  by (auto simp: process_series_def write_file_def split: prod.splits sum.splits option.splits)

text \<open>
  C2. When a series has been processed without an exception, its summary file holds the
  header \<open>id, kind, name, teams\<close> and one row for every event of \<open>events\<close>, in order, with
  the event's id, the name of its kind, its name and the number of its teams. That is
  the whole dict: it starts with the events that were there before this series. The
  content does not depend on what the file held before.
\<close>

theorem series_file_lists_all_events:
  "fst (process_series E (w, u) s) = None \<longrightarrow>
     (let s' = snd (process_series E (w, u) s) in
      files s' (series_path w) =
        Some ([''id'', ''kind'', ''name'', ''teams''],
              map (\<lambda>ev. [CellInt (ev_id ev), CellStr (EventKind_name (ev_kind ev)),
                         CellStr (ev_name ev), CellInt (int (length (ev_results ev)))])
                  (map snd (events s'))) \<and>
      (\<exists>new. events s' = events s @ new))"
proof
  assume ok: "fst (process_series E (w, u) s) = None"
  obtain s' where run: "process_series E (w, u) s = (None, s')"
    using ok by (cases "process_series E (w, u) s") simp
  have "series_csv evs =
      ([''id'', ''kind'', ''name'', ''teams''],
       map (\<lambda>ev. [CellInt (ev_id ev), CellStr (EventKind_name (ev_kind ev)),
                  CellStr (ev_name ev), CellInt (int (length (ev_results ev)))])
           (map snd evs))" for evs
    by (simp add: series_csv_def series_fieldnames_def series_row_def writerow_def
        dict_values_def)
  with process_series_writes [OF run] process_series_grows [OF run] run
  show "let s' = snd (process_series E (w, u) s) in
      files s' (series_path w) =
        Some ([''id'', ''kind'', ''name'', ''teams''],
              map (\<lambda>ev. [CellInt (ev_id ev), CellStr (EventKind_name (ev_kind ev)),
                         CellStr (ev_name ev), CellInt (int (length (ev_results ev)))])
                  (map snd (events s'))) \<and>
      (\<exists>new. events s' = events s @ new)"
    by (simp add: Let_def)
qed

theorem series_file_lists_all_events_witness:
  "fst (process_series example_env (''FSC'', ''https://fs-world.org/C'') after_FSE) = None \<and>
   events after_FSE = [(101, event_101)] \<and>
   files after_FSE ''data/FSC.csv'' = None \<and>
   files (snd (process_series example_env (''FSC'', ''https://fs-world.org/C'') after_FSE))
       ''data/FSC.csv'' =
     Some ([''id'', ''kind'', ''name'', ''teams''],
           [[CellInt 101, CellStr ''ELECTRIC'', CellStr ''FS Alpha'', CellInt 1],
            [CellInt 205, CellStr ''ELECTRIC'', CellStr ''FS Beta'', CellInt 0]])"
proof -
  have ok: "fst (process_series example_env (''FSC'', ''https://fs-world.org/C'') after_FSE)
      = None"
    by (simp add: example_series_FSC)
  have evs: "events (snd (process_series example_env (''FSC'', ''https://fs-world.org/C'')
      after_FSE)) = [(101, event_101), (205, event_205)]"
    by (simp add: example_series_FSC after_FSC_def)
  have before: "events after_FSE = [(101, event_101)] \<and> files after_FSE ''data/FSC.csv'' = None"
    by (simp add: after_FSE_def after_101_def write_file_def no_files_def)
  from series_file_lists_all_events
    [of example_env "''FSC''" "''https://fs-world.org/C''" after_FSE] ok before
  show ?thesis
    by (simp add: Let_def evs series_path_def event_101_def event_205_def)
qed

section \<open>The kind of an event\<close>

lemma lower_take: "take n (lower s) = lower (take n s)"
  by (simp add: lower_def take_map)

lemma py_in_lower: "py_in v s \<Longrightarrow> py_in (lower v) (lower s)"
proof (induction s)
  case Nil
  then show ?case by (simp add: lower_def)
next
  case (Cons c cs)
  from Cons.prems have "take (length v) (c # cs) = v \<or> py_in v cs" by simp
  then show ?case
  proof
    assume "take (length v) (c # cs) = v"
    then have "lower (take (length v) (c # cs)) = lower v" by simp
    then have "take (length (lower v)) (lower (c # cs)) = lower v"
      by (simp add: lower_take) (simp add: lower_def)
    then show ?thesis by (simp add: lower_def)
  next
    assume "py_in v cs"
    then have "py_in (lower v) (lower cs)" by (rule Cons.IH)
    then show ?thesis by (simp add: lower_def)
  qed
qed

lemma lookup_fresh: "\<not> dict_contains i evs \<Longrightarrow> map_of (evs @ [(i, ev)]) i = Some ev"
  by (simp add: dict_contains_def map_add_Some_iff map_of_eq_None_iff)

text \<open>After the heading has been read, the loop body leaves \<open>event_kind\<close> as classified.\<close>

lemma process_event_kind:
  assumes "\<not> dict_contains i (events s)"
    and "get E (u @ ''/'' @ str_int i) s = (Inr soup, s1)"
    and "page_heading soup = Inr (event_name, info)"
    and "process_event E w u i s = (r, s')"
  shows "event_kind s' = classify info (event_kind s)"
    and "classify info (event_kind s) = None \<Longrightarrow> r = Some NameError"
  using assms get_frame [OF assms(2)]
  by (auto simp: process_event_def Let_def print_def write_file_def
      split: sum.splits option.splits)

lemma process_event_recorded_kind:
  assumes "\<not> dict_contains i (events s)"
    and "process_event E w u i s = (None, s')"
  shows "\<exists>ev. map_of (events s') i = Some ev \<and> Some (ev_kind ev) = event_kind s'"
proof -
  from process_event_effect [OF assms(2)] assms(1)
  obtain k name results where k: "event_kind s' = Some k"
    and e: "events s' = events s @
      [(i, \<lparr>ev_id = i, ev_kind = k, ev_name = name, ev_results = results\<rparr>)]"
    by auto
  have "map_of (events s') i =
      Some \<lparr>ev_id = i, ev_kind = k, ev_name = name, ev_results = results\<rparr>"
    unfolding e using assms(1) by (rule lookup_fresh)
  with k show ?thesis by simp
qed

text \<open>
  C6. For an event id not yet in \<open>events\<close> whose detail page has one \<open>h4\<close> and a string
  as the node right after it (text, or a comment, which is a string too), the loop body
  leaves the variable \<open>event_kind\<close> at MIXED if the lower-cased string contains \<open>mixed event\<close>, else at ELECTRIC if it contains \<open>pure electric\<close>, else at
  COMBUSTION if it contains \<open>pure combustion\<close>, and else at what it held before. So a
  string containing \<open>pure electric\<close> in any mix of cases, and not \<open>mixed event\<close>, gives
  ELECTRIC. With no match and the variable still unbound the pass ends in a NameError;
  with no match and a value left by an earlier pass, that value is used: an event that is
  recorded carries the value of the variable.
\<close>

theorem event_kind_classification:
  assumes "\<not> dict_contains i (events s)"
    and "fst (get E (u @ ''/'' @ str_int i) s) = Inr soup"
    and "find_all (tag_named ''h4'') soup = [(h4, event_info # rest)]"
    and "event_info = NavigableString info \<or> event_info = Comment info"
  shows "let r = fst (process_event E w u i s); s' = snd (process_event E w u i s);
             low = lower info in
         event_kind s' =
           (if py_in ''mixed event'' low then Some Event_MIXED
            else if py_in ''pure electric'' low then Some Event_ELECTRIC
            else if py_in ''pure combustion'' low then Some Event_COMBUSTION
            else event_kind s) \<and>
         (\<forall>v. lower v = ''pure electric'' \<longrightarrow> py_in v info \<longrightarrow>
            \<not> py_in ''mixed event'' low \<longrightarrow> event_kind s' = Some Event_ELECTRIC) \<and>
         (\<not> py_in ''mixed event'' low \<and> \<not> py_in ''pure electric'' low \<and>
          \<not> py_in ''pure combustion'' low \<and> event_kind s = None \<longrightarrow>
            r = Some NameError) \<and>
         (r = None \<longrightarrow>
            (\<exists>ev. map_of (events s') i = Some ev \<and> Some (ev_kind ev) = event_kind s'))"
proof -
  obtain r s' where run: "process_event E w u i s = (r, s')"
    by (cases "process_event E w u i s")
  obtain s1 where g: "get E (u @ ''/'' @ str_int i) s = (Inr soup, s1)"
    using assms(2) by (cases "get E (u @ ''/'' @ str_int i) s") simp
  have h: "page_heading soup = Inr (text_of h4, Some (lower info))"
    using assms(3,4) by (auto simp: page_heading_def bind_err_def)
  note kind = process_event_kind [OF assms(1) g h run]
  have a: "event_kind s' =
      (if py_in ''mixed event'' (lower info) then Some Event_MIXED
       else if py_in ''pure electric'' (lower info) then Some Event_ELECTRIC
       else if py_in ''pure combustion'' (lower info) then Some Event_COMBUSTION
       else event_kind s)"
    using kind(1) by (simp add: classify_def)
  have b: "event_kind s' = Some Event_ELECTRIC"
    if "lower v = ''pure electric''" and "py_in v info"
      and "\<not> py_in ''mixed event'' (lower info)" for v
  proof -
    from that(2) have "py_in (lower v) (lower info)" by (rule py_in_lower)
    with that(1,3) a show ?thesis by simp
  qed
  have c: "r = Some NameError"
    if "\<not> py_in ''mixed event'' (lower info)" and "\<not> py_in ''pure electric'' (lower info)"
      and "\<not> py_in ''pure combustion'' (lower info)" and "event_kind s = None"
    using kind(2) that by (simp add: classify_def)
  have d: "\<exists>ev. map_of (events s') i = Some ev \<and> Some (ev_kind ev) = event_kind s'"
    if "r = None"
    using process_event_recorded_kind [OF assms(1)] run that by simp
  from a b c d show ?thesis
    unfolding Let_def run fst_conv snd_conv by blast
qed

theorem event_kind_classification_witness:
  "event_kind (snd (process_event example_env ''FSE'' ''https://fs-world.org/E'' 101 before_101))
     = Some Event_ELECTRIC \<and>
   event_kind after_101 = Some Event_ELECTRIC \<and>
   event_kind (snd (process_event example_env ''FSC'' ''https://fs-world.org/C'' 205 after_101))
     = Some Event_ELECTRIC \<and>
   event_kind before_101 = None \<and>
   fst (process_event example_env ''FSC'' ''https://fs-world.org/C'' 205 before_101)
     = Some NameError \<and>
   fst (process_event example_env ''FSC'' ''https://fs-world.org/C'' 401 before_101)
     = Some NameError"
proof -
  have fresh: "\<not> dict_contains 101 (events before_101)"
    "\<not> dict_contains 205 (events after_101)" "\<not> dict_contains 205 (events before_101)"
    "\<not> dict_contains 401 (events before_101)"
    by (simp_all add: before_101_def after_101_def dict_contains_def)
  have p101: "fst (get example_env (''https://fs-world.org/E'' @ ''/'' @ str_int 101)
      before_101) = Inr page_101"
    by (simp add: get_def requests_get_def sleep_def before_101_def env_defs str_int_def
        str_nat.simps digit_char_def)
  have p205: "fst (get example_env (''https://fs-world.org/C'' @ ''/'' @ str_int 205)
      after_101) = Inr page_205"
    "fst (get example_env (''https://fs-world.org/C'' @ ''/'' @ str_int 205)
      before_101) = Inr page_205"
    by (simp_all add: get_def requests_get_def sleep_def before_101_def after_101_def env_defs
        str_int_def str_nat.simps digit_char_def)
  have p401: "fst (get example_env (''https://fs-world.org/C'' @ ''/'' @ str_int 401)
      before_101) = Inr page_401"
    by (simp add: get_def requests_get_def sleep_def before_101_def env_defs str_int_def
        str_nat.simps digit_char_def)
  have h401: "find_all (tag_named ''h4'') page_401 =
      [(Tag ''h4'' [] [NavigableString ''FS A''],
        Comment '' season note '' #
        [NavigableString ''Pure Electric event'',
         Tag ''h5'' [(''id'', AttrStr ''results'')] [NavigableString ''Results''],
         Tag ''table'' [(''class'', AttrList [''wrl_table''])] [header_row]])]"
    by (simp add: tree_defs cell_defs page_defs)
  have h101: "find_all (tag_named ''h4'') page_101 =
      [(Tag ''h4'' [] [NavigableString ''FS Alpha''],
        NavigableString ''A Pure Electric competition'' #
        [Tag ''h5'' [(''id'', AttrStr ''results'')] [NavigableString ''Results''],
         Tag ''table'' [(''class'', AttrList [''wrl_table''])]
           [header_row, team_row_of ''electric'']])]"
    by (simp add: tree_defs cell_defs page_defs)
  have h205: "find_all (tag_named ''h4'') page_205 =
      [(Tag ''h4'' [] [NavigableString ''FS Beta''],
        NavigableString ''Season 2019'' #
        [Tag ''h5'' [(''id'', AttrStr ''results'')] [NavigableString ''Results''],
         Tag ''table'' [(''class'', AttrList [''wrl_table''])] [header_row]])]"
    by (simp add: tree_defs cell_defs page_defs)
  have vars: "event_kind after_101 = Some Event_ELECTRIC" "event_kind before_101 = None"
    by (simp_all add: before_101_def after_101_def)
  have plain: "NavigableString x = NavigableString x \<or> NavigableString x = Comment x"
    and remark: "Comment x = NavigableString x \<or> Comment x = Comment x" for x
    by simp_all
  from event_kind_classification [OF fresh(1) p101 h101 plain, of "''FSE''"]
    event_kind_classification [OF fresh(2) p205(1) h205 plain, of "''FSC''"]
    event_kind_classification [OF fresh(3) p205(2) h205 plain, of "''FSC''"]
    event_kind_classification [OF fresh(4) p401 h401 remark, of "''FSC''"]
    vars
  show ?thesis
    by (simp add: Let_def lower_def lower_char_def)
qed

section \<open>Pacing of the requests\<close>

text \<open>
  One call: the request is sent at the later of the time of the call and the time one
  pause after the previous \<open>last_request\<close>, which then becomes the time of sending.
\<close>

lemma get_sent:
  "get E url s =
     requests_get E url
       (s\<lparr>clock := max (clock s) (last_request (scraper s) + min_pause (scraper s)),
          scraper := (scraper s)
            \<lparr>last_request := max (clock s) (last_request (scraper s) + min_pause (scraper s))\<rparr>\<rparr>)"
proof (cases "clock s - last_request (scraper s) < min_pause (scraper s)")
  case True
  then have m: "max (clock s) (last_request (scraper s) + min_pause (scraper s))
      = last_request (scraper s) + min_pause (scraper s)"
    by linarith
  have a: "clock s + (min_pause (scraper s) - (clock s - last_request (scraper s)))
      = last_request (scraper s) + min_pause (scraper s)"
    by linarith
  show ?thesis
    unfolding m using True by (simp add: get_def sleep_def Let_def a)
next
  case False
  then have m: "max (clock s) (last_request (scraper s) + min_pause (scraper s)) = clock s"
    by linarith
  show ?thesis
    unfolding m using False by (simp add: get_def sleep_def Let_def)
qed

lemma get_effect:
  "snd (get E url s) =
     s\<lparr>clock := max (clock s) (last_request (scraper s) + min_pause (scraper s))
                 + latency E url,
        scraper := (scraper s)
          \<lparr>last_request := max (clock s) (last_request (scraper s) + min_pause (scraper s))\<rparr>,
        requests := requests s @
          [(url, max (clock s) (last_request (scraper s) + min_pause (scraper s)),
            max (clock s) (last_request (scraper s) + min_pause (scraper s))
              + latency E url)]\<rparr>"
  by (simp add: get_sent requests_get_def Let_def split: option.splits)

text \<open>
  C8, as the code has it. \<open>Scraper.get\<close> sends its request at the later of the time of
  the call and \<open>last_request + min_pause\<close>: called too soon it sleeps for exactly the
  deficit \<open>min_pause - (now - last_request)\<close>, otherwise not at all. It stores the time
  of sending in \<open>last_request\<close> and leaves \<open>min_pause\<close> alone, which is 1 by default. So
  of two calls in a row, with any time \<open>d\<close> passing in between, the second request is
  sent at least \<open>min_pause\<close> after the first was sent.
\<close>

theorem get_paces_from_send_to_send:
  "(let s1 = snd (get E url s);
        sent = max (clock s) (last_request (scraper s) + min_pause (scraper s)) in
    requests s1 = requests s @ [(url, sent, sent + latency E url)] \<and>
    sent - clock s =
      (if clock s - last_request (scraper s) < min_pause (scraper s)
       then min_pause (scraper s) - (clock s - last_request (scraper s)) else 0) \<and>
    min_pause (scraper s) \<le> sent - last_request (scraper s) \<and>
    last_request (scraper s1) = sent \<and>
    min_pause (scraper s1) = min_pause (scraper s) \<and>
    clock s1 = sent + latency E url) \<and>
   (let s1 = snd (get E url s);
        s2 = snd (get E url2 (s1\<lparr>clock := clock s1 + d\<rparr>)) in
    \<exists>sent1 sent2.
      requests s2 = requests s @
        [(url, sent1, sent1 + latency E url), (url2, sent2, sent2 + latency E url2)] \<and>
      sent2 = max (sent1 + latency E url + d) (sent1 + min_pause (scraper s)) \<and>
      min_pause (scraper s) \<le> sent2 - sent1 \<and>
      last_request (scraper s2) = sent2) \<and>
   min_pause Scraper_default = 1"
proof -
  have one: "let s1 = snd (get E url s);
        sent = max (clock s) (last_request (scraper s) + min_pause (scraper s)) in
    requests s1 = requests s @ [(url, sent, sent + latency E url)] \<and>
    sent - clock s =
      (if clock s - last_request (scraper s) < min_pause (scraper s)
       then min_pause (scraper s) - (clock s - last_request (scraper s)) else 0) \<and>
    min_pause (scraper s) \<le> sent - last_request (scraper s) \<and>
    last_request (scraper s1) = sent \<and>
    min_pause (scraper s1) = min_pause (scraper s) \<and>
    clock s1 = sent + latency E url"
    by (simp add: get_effect Let_def max_def)
  have two: "let s1 = snd (get E url s);
        s2 = snd (get E url2 (s1\<lparr>clock := clock s1 + d\<rparr>)) in
    \<exists>sent1 sent2.
      requests s2 = requests s @
        [(url, sent1, sent1 + latency E url), (url2, sent2, sent2 + latency E url2)] \<and>
      sent2 = max (sent1 + latency E url + d) (sent1 + min_pause (scraper s)) \<and>
      min_pause (scraper s) \<le> sent2 - sent1 \<and>
      last_request (scraper s2) = sent2"
    by (simp add: get_effect Let_def)
  have "min_pause Scraper_default = 1"
    by (simp add: Scraper_default_def Scraper_init_def)
  with one two show ?thesis by simp
qed

theorem get_paces_from_send_to_send_witness:
  "clock hasty_state - last_request (scraper hasty_state) = 1 / 4 \<and>
   requests (snd (get example_env ''https://fs-world.org/E/101'' hasty_state)) =
     [(''https://fs-world.org/E'', 100, 401 / 4), (''https://fs-world.org/E/101'', 101, 106)] \<and>
   last_request (scraper (snd (get example_env ''https://fs-world.org/E/101'' hasty_state)))
     = 101"
  using get_paces_from_send_to_send
    [where E = example_env and url = "''https://fs-world.org/E/101''" and s = hasty_state]
  by (simp add: Let_def hasty_state_def env_defs)

text \<open>
  The interval is not measured from the end of the previous request. The first request
  of the example is sent at 100 and answered at 105; the second is sent at 105, no time
  after that answer, although the pause is 1.
\<close>

theorem get_end_to_start_counterexample:
  "requests two_requests =
     [(''https://fs-world.org/E'', 100, 105), (''https://fs-world.org/E/101'', 105, 110)] \<and>
   min_pause (scraper two_requests) = 1 \<and>
   \<not> min_pause (scraper two_requests)
       \<le> fst (snd (requests two_requests ! 1)) - snd (snd (requests two_requests ! 0))"
  by (simp add: two_requests_def get_effect initial_state_def Scraper_default_def
      Scraper_init_def env_defs)

end
